theory Spec2Isabelle
  imports Complex_Main
begin

section \<open>Data model\<close>

text \<open>
  Values decoded from a JSON body, which are also the Python values the program handles:
  \<open>None\<close> is \<open>JNull\<close>, a \<open>dict\<close> is \<open>JObj\<close> (its items in order), a \<open>list\<close> is
  \<open>JArr\<close>. Numbers are the integers of the service's counters.
\<close>

datatype json =
    JNull
  | JBool bool
  | JNum int
  | JStr string
  | JArr "json list"
  | JObj "(string \<times> json) list"

text \<open>The exceptions (all subclasses of \<open>Exception\<close>) that the program can meet.\<close>

datatype exn =
    ClientError
  | ClientResponseError
  | ContentTypeError
  | KeyError
  | IndexError
  | TypeError
  | AttributeError

text \<open>\<open>class UserStats\<close> (lines 26-34); an absent level is \<open>JNull\<close>.\<close>

record UserStats =
  username :: json
  initial_level :: json
  final_level :: json
  damage_upgrades :: int
  limit_upgrades :: int
  missions_completed :: int
  taps_performed :: int

definition new_UserStats :: "json \<Rightarrow> UserStats" where
  "new_UserStats name =
     \<lparr>username = name, initial_level = JNull, final_level = JNull, damage_upgrades = 0,
      limit_upgrades = 0, missions_completed = 0, taps_performed = 0\<rparr>"

text \<open>
  A remote call: the method, the path under \<open>BASE_URL\<close> (an identifier formatted into the
  path is kept as the value it was formatted from), the bearer token of \<open>get_headers\<close>, the
  JSON payload if any, and the time of dispatch in milliseconds.
\<close>

datatype http_method = GET | POST

datatype endpoint =
    Scoreboard_me
  | Missions string
  | Mission_activity json
  | Mission_reward json
  | Daily_rewards_today_info
  | Daily_rewards_claim
  | Levels
  | Boost_card
  | Boost_level_purchase
  | Boost_purchase json
  | Game_clicker_submit
  | Game_clicker_freeze
  | Boost_modification_active
  | Boost_modification_buy
  | Boost_modification

datatype request =
  Request (meth: http_method) (target: endpoint) (bearer: string) (payload: "json option")
    (sent_at: nat)

text \<open>
  What the service answers to a call: the transport fails, or a response arrives with a
  status code and a body that decodes as JSON or does not (\<open>None\<close>).
\<close>

datatype reply = Transport_error | Response nat "json option"

text \<open>
  The environment of one run: the reply to the \<open>k\<close>-th call dispatched, the time that call
  takes, and the value drawn by \<open>random.random()\<close> after \<open>k\<close> calls (scaled to milliseconds).
\<close>

record env =
  reply_of :: "nat \<Rightarrow> reply"
  latency_of :: "nat \<Rightarrow> nat"
  jitter_of :: "nat \<Rightarrow> nat"

text \<open>
  The state the program works on: the calls dispatched so far, the wall clock in
  milliseconds, and the \<open>UserStats\<close> object of the account being processed.
\<close>

record world =
  trace :: "request list"
  clock :: nat
  user_stats :: UserStats

section \<open>Python operations on decoded values\<close>

fun truthy :: "json \<Rightarrow> bool" where
  "truthy JNull = False"
| "truthy (JBool b) = b"
| "truthy (JNum n) = (n \<noteq> 0)"
| "truthy (JStr s) = (s \<noteq> [])"
| "truthy (JArr xs) = (xs \<noteq> [])"
| "truthy (JObj kvs) = (kvs \<noteq> [])"

text \<open>\<open>x[key]\<close> with a string key.\<close>

fun subscript :: "json \<Rightarrow> string \<Rightarrow> exn + json" where
  "subscript (JObj kvs) k = (case map_of kvs k of None \<Rightarrow> Inl KeyError | Some v \<Rightarrow> Inr v)"
| "subscript _ k = Inl TypeError"

text \<open>\<open>x.get(key, default)\<close>: only a dict has the method.\<close>

fun py_get :: "json \<Rightarrow> string \<Rightarrow> json \<Rightarrow> exn + json" where
  "py_get (JObj kvs) k d = Inr (case map_of kvs k of None \<Rightarrow> d | Some v \<Rightarrow> v)"
| "py_get _ k d = Inl AttributeError"

fun starts_with :: "string \<Rightarrow> string \<Rightarrow> bool" where
  "starts_with [] s = True"
| "starts_with (c # cs) [] = False"
| "starts_with (c # cs) (d # ds) = (c = d \<and> starts_with cs ds)"

fun is_substring :: "string \<Rightarrow> string \<Rightarrow> bool" where
  "is_substring k [] = (k = [])"
| "is_substring k (d # ds) = (starts_with k (d # ds) \<or> is_substring k ds)"

text \<open>\<open>key in x\<close> with a string key.\<close>

fun py_in :: "string \<Rightarrow> json \<Rightarrow> exn + bool" where
  "py_in k (JObj kvs) = Inr (map_of kvs k \<noteq> None)"
| "py_in k (JArr xs) = Inr (List.member xs (JStr k))"
| "py_in k (JStr s) = Inr (is_substring k s)"
| "py_in k _ = Inl TypeError"

text \<open>The items that \<open>for x in v\<close> visits.\<close>

fun py_iter :: "json \<Rightarrow> exn + json list" where
  "py_iter (JArr xs) = Inr xs"
| "py_iter (JObj kvs) = Inr (map (\<lambda>kv. JStr (fst kv)) kvs)"
| "py_iter (JStr s) = Inr (map (\<lambda>c. JStr [c]) s)"
| "py_iter _ = Inl TypeError"

fun py_len :: "json \<Rightarrow> exn + nat" where
  "py_len (JArr xs) = Inr (length xs)"
| "py_len (JObj kvs) = Inr (length kvs)"
| "py_len (JStr s) = Inr (length s)"
| "py_len _ = Inl TypeError"

text \<open>The number a value is in arithmetic and in an ordering comparison with a number.\<close>

fun py_num :: "json \<Rightarrow> exn + int" where
  "py_num (JNum n) = Inr n"
| "py_num (JBool b) = Inr (if b then 1 else 0)"
| "py_num _ = Inl TypeError"

text \<open>\<open>levels[-1]\<close>: the last item of a list, the last character of a string.\<close>

fun py_last :: "json \<Rightarrow> exn + json" where
  "py_last (JArr xs) = (if xs = [] then Inl IndexError else Inr (last xs))"
| "py_last (JStr s) = (if s = [] then Inl IndexError else Inr (JStr [last s]))"
| "py_last (JObj kvs) = Inl KeyError"
| "py_last _ = Inl TypeError"

definition bindR :: "exn + 'a \<Rightarrow> ('a \<Rightarrow> exn + 'b) \<Rightarrow> exn + 'b" where
  "bindR r f = (case r of Inl e \<Rightarrow> Inl e | Inr x \<Rightarrow> f x)"

text \<open>\<open>next((x for x in xs if p(x)), None)\<close> and \<open>any(p(x) for x in xs)\<close>: both stop at
  the first hit, and an exception in \<open>p\<close> before it escapes.\<close>

fun py_next :: "(json \<Rightarrow> exn + bool) \<Rightarrow> json list \<Rightarrow> exn + json" where
  "py_next p [] = Inr JNull"
| "py_next p (x # xs) =
     (case p x of Inl e \<Rightarrow> Inl e | Inr b \<Rightarrow> if b then Inr x else py_next p xs)"

fun py_any :: "(json \<Rightarrow> exn + bool) \<Rightarrow> json list \<Rightarrow> exn + bool" where
  "py_any p [] = Inr False"
| "py_any p (x # xs) =
     (case p x of Inl e \<Rightarrow> Inl e | Inr b \<Rightarrow> if b then Inr True else py_any p xs)"

text \<open>A list comprehension \<open>[f(x) for x in xs]\<close>.\<close>

fun py_map :: "(json \<Rightarrow> exn + json) \<Rightarrow> json list \<Rightarrow> exn + json list" where
  "py_map f [] = Inr []"
| "py_map f (x # xs) =
     (case f x of Inl e \<Rightarrow> Inl e
      | Inr y \<Rightarrow> (case py_map f xs of Inl e \<Rightarrow> Inl e | Inr ys \<Rightarrow> Inr (y # ys)))"

section \<open>Computations: state passing with exceptions\<close>

type_synonym 'a prog = "world \<Rightarrow> (exn + 'a) \<times> world"

definition ret :: "'a \<Rightarrow> 'a prog" where
  "ret x w = (Inr x, w)"

definition lift :: "exn + 'a \<Rightarrow> 'a prog" where
  "lift r w = (r, w)"

definition bindE :: "'a prog \<Rightarrow> ('a \<Rightarrow> 'b prog) \<Rightarrow> 'b prog" where
  "bindE m f w = (case m w of (Inl e, w') \<Rightarrow> (Inl e, w') | (Inr x, w') \<Rightarrow> f x w')"

text \<open>\<open>try: m except Exception as err: h(err)\<close>; the state changes made before the
  exception stay.\<close>

definition try_except :: "'a prog \<Rightarrow> (exn \<Rightarrow> 'a prog) \<Rightarrow> 'a prog" where
  "try_except m h w = (case m w of (Inl e, w') \<Rightarrow> h e w' | (Inr x, w') \<Rightarrow> (Inr x, w'))"

text \<open>\<open>await asyncio.sleep(s)\<close>, in milliseconds.\<close>

definition sleep :: "nat \<Rightarrow> unit prog" where
  "sleep ms w = (Inr (), w\<lparr>clock := clock w + ms\<rparr>)"

fun for_each :: "('a \<Rightarrow> unit prog) \<Rightarrow> 'a list \<Rightarrow> unit prog" where
  "for_each f [] w = (Inr (), w)"
| "for_each f (x # xs) w =
     (case f x w of (Inl e, w') \<Rightarrow> (Inl e, w') | (Inr u, w') \<Rightarrow> for_each f xs w')"

text \<open>
  \<open>session.get\<close> / \<open>session.post\<close>: the call is dispatched as it is (no function of the
  program passes through \<open>rate_limited_api_call\<close>), the environment's reply to it comes
  back after the call's latency.
\<close>

definition session_request ::
  "env \<Rightarrow> http_method \<Rightarrow> endpoint \<Rightarrow> string \<Rightarrow> json option \<Rightarrow> (nat \<times> json option) prog" where
  "session_request E m ep token pl w =
     (let k = length (trace w);
          w' = w\<lparr>trace := trace w @ [Request m ep token pl (clock w)],
                 clock := clock w + latency_of E k\<rparr>
      in case reply_of E k of
           Transport_error \<Rightarrow> (Inl ClientError, w')
         | Response s b \<Rightarrow> (Inr (s, b), w'))"

definition raise_for_status :: "nat \<times> json option \<Rightarrow> exn + unit" where
  "raise_for_status response = (if 400 \<le> fst response then Inl ClientResponseError else Inr ())"

definition response_json :: "nat \<times> json option \<Rightarrow> exn + json" where
  "response_json response = (case snd response of None \<Rightarrow> Inl ContentTypeError | Some j \<Rightarrow> Inr j)"

section \<open>The gateway operations\<close>

definition login :: "env \<Rightarrow> string \<Rightarrow> json prog" where
  "login E token =
     try_except
       (bindE (session_request E GET Scoreboard_me token None) (\<lambda>response.
        bindE (lift (raise_for_status response)) (\<lambda>_.
        bindE (lift (response_json response)) (\<lambda>user_data.
        bindE (lift (py_in ''user'' user_data)) (\<lambda>has_user.
          if has_user then
            bindE (lift (subscript user_data ''user'')) (\<lambda>user.
            bindE (lift (py_in ''nickname'' user)) (\<lambda>has_nickname.
              if has_nickname then lift (subscript user ''nickname'') else ret JNull))
          else ret JNull)))))
       (\<lambda>err. ret JNull)"

definition get_campaign_missions :: "env \<Rightarrow> string \<Rightarrow> string \<Rightarrow> json prog" where
  "get_campaign_missions E token campaign_id =
     try_except
       (bindE (session_request E GET (Missions campaign_id) token None) (\<lambda>response.
        bindE (lift (raise_for_status response)) (\<lambda>_.
        bindE (lift (response_json response)) (\<lambda>body.
        bindE (lift (subscript body ''data'')) (\<lambda>missions.
        bindE (lift (py_len missions)) (\<lambda>_. ret missions))))))
       (\<lambda>err. ret (JArr []))"

definition complete_mission :: "env \<Rightarrow> string \<Rightarrow> json \<Rightarrow> bool prog" where
  "complete_mission E token mission_id =
     try_except
       (bindE (session_request E POST (Mission_activity mission_id) token None) (\<lambda>response.
        bindE (lift (raise_for_status response)) (\<lambda>_.
        bindE (lift (response_json response)) (\<lambda>result.
        bindE (lift (py_get result ''success'' JNull)) (\<lambda>success.
          if truthy success then ret True else ret False)))))
       (\<lambda>err. ret False)"

definition claim_mission_reward :: "env \<Rightarrow> string \<Rightarrow> json \<Rightarrow> bool prog" where
  "claim_mission_reward E token mission_id =
     try_except
       (bindE (session_request E POST (Mission_reward mission_id) token None) (\<lambda>response.
          if fst response = 201 then ret True else ret False))
       (\<lambda>err. ret False)"

definition claim_daily :: "env \<Rightarrow> string \<Rightarrow> unit prog" where
  "claim_daily E token =
     try_except
       (bindE (session_request E GET Daily_rewards_today_info token None) (\<lambda>response.
        bindE (lift (raise_for_status response)) (\<lambda>_.
        bindE (lift (response_json response)) (\<lambda>daily_info.
        bindE (lift (subscript daily_info ''todayClaimed'')) (\<lambda>today_claimed.
          if truthy today_claimed then ret ()
          else
            bindE (session_request E POST Daily_rewards_claim token None) (\<lambda>claim_response.
              lift (raise_for_status claim_response)))))))
       (\<lambda>err. ret ())"

definition get_levels :: "env \<Rightarrow> string \<Rightarrow> json prog" where
  "get_levels E token =
     try_except
       (bindE (session_request E GET Levels token None) (\<lambda>response.
        bindE (lift (raise_for_status response)) (\<lambda>_.
          lift (response_json response))))
       (\<lambda>err. ret (JArr []))"

definition get_tapping_upgrades :: "env \<Rightarrow> string \<Rightarrow> json prog" where
  "get_tapping_upgrades E token =
     try_except
       (bindE (session_request E GET Boost_card token None) (\<lambda>response.
        bindE (lift (raise_for_status response)) (\<lambda>_.
        bindE (lift (response_json response)) (\<lambda>body.
          lift (subscript body ''data'')))))
       (\<lambda>err. ret (JArr []))"

definition set_final_level :: "json \<Rightarrow> unit prog" where
  "set_final_level level w = (Inr (), w\<lparr>user_stats := (user_stats w)\<lparr>final_level := level\<rparr>\<rparr>)"

definition upgrade_level :: "env \<Rightarrow> string \<Rightarrow> (bool \<times> json) prog" where
  "upgrade_level E token =
     try_except
       (bindE (session_request E POST Boost_level_purchase token None) (\<lambda>response.
          if fst response = 201 then
            bindE (lift (response_json response)) (\<lambda>result.
            bindE (lift (subscript result ''level'')) (\<lambda>level.
            bindE (set_final_level level) (\<lambda>_.
              ret (True, level))))
          else if fst response = 402 then ret (False, JNull)
          else ret (False, JNull)))
       (\<lambda>err. ret (False, JNull))"

definition add_damage_upgrades :: "int \<Rightarrow> unit prog" where
  "add_damage_upgrades n w =
     (Inr (), w\<lparr>user_stats := (user_stats w)\<lparr>damage_upgrades := damage_upgrades (user_stats w) + n\<rparr>\<rparr>)"

definition add_limit_upgrades :: "int \<Rightarrow> unit prog" where
  "add_limit_upgrades n w =
     (Inr (), w\<lparr>user_stats := (user_stats w)\<lparr>limit_upgrades := limit_upgrades (user_stats w) + n\<rparr>\<rparr>)"

definition upgrade_tapping :: "env \<Rightarrow> string \<Rightarrow> json \<Rightarrow> string \<Rightarrow> (bool \<times> json) prog" where
  "upgrade_tapping E token upgrade_id upgrade_type =
     try_except
       (bindE (session_request E POST (Boost_purchase upgrade_id) token None) (\<lambda>response.
          if fst response = 201 then
            bindE (lift (response_json response)) (\<lambda>result.
            bindE (if upgrade_type = ''Damage'' then add_damage_upgrades 1
                   else if upgrade_type = ''Limit energy'' then add_limit_upgrades 1
                   else ret ()) (\<lambda>_.
            bindE (lift (subscript result ''level'')) (\<lambda>level.
              ret (True, level))))
          else if fst response = 402 then ret (False, JNull)
          else ret (False, JNull)))
       (\<lambda>err. ret (False, JNull))"

text \<open>
  The log line of \<open>get_game_status\<close> evaluates \<open>status.get\<close> twice and that of
  \<open>perform_tapping\<close> once, inside the \<open>try\<close>: a body that is no dict makes both return
  \<open>None\<close>.
\<close>

definition get_game_status :: "env \<Rightarrow> string \<Rightarrow> json prog" where
  "get_game_status E token =
     try_except
       (bindE (session_request E POST Game_clicker_submit token
                 (Some (JObj [(''clickedCount'', JNum 0)]))) (\<lambda>response.
        bindE (lift (raise_for_status response)) (\<lambda>_.
        bindE (lift (response_json response)) (\<lambda>status.
        bindE (lift (py_get status ''currentClickedCount'' (JStr ''N/A''))) (\<lambda>_.
        bindE (lift (py_get status ''totalClicksLimit'' (JStr ''N/A''))) (\<lambda>_.
          ret status))))))
       (\<lambda>err. ret JNull)"

definition perform_tapping :: "env \<Rightarrow> string \<Rightarrow> int \<Rightarrow> json prog" where
  "perform_tapping E token click_count =
     try_except
       (bindE (session_request E POST Game_clicker_submit token
                 (Some (JObj [(''clickedCount'', JNum click_count)]))) (\<lambda>response.
        bindE (lift (raise_for_status response)) (\<lambda>_.
        bindE (lift (response_json response)) (\<lambda>result.
        bindE (lift (py_get result ''currentClickedCount'' (JStr ''N/A''))) (\<lambda>_.
          ret result)))))
       (\<lambda>err. ret JNull)"

definition freeze_game :: "env \<Rightarrow> string \<Rightarrow> json prog" where
  "freeze_game E token =
     try_except
       (bindE (session_request E POST Game_clicker_freeze token None) (\<lambda>response.
        bindE (lift (raise_for_status response)) (\<lambda>_.
          lift (response_json response))))
       (\<lambda>err. ret JNull)"

definition boost_modification_type :: "json \<Rightarrow> exn + json" where
  "boost_modification_type boost =
     bindR (subscript boost ''boostModification'') (\<lambda>m. subscript m ''type'')"

definition get_active_boosts :: "env \<Rightarrow> string \<Rightarrow> json prog" where
  "get_active_boosts E token =
     try_except
       (bindE (session_request E GET Boost_modification_active token None) (\<lambda>response.
        bindE (lift (raise_for_status response)) (\<lambda>_.
        bindE (lift (response_json response)) (\<lambda>active_boosts.
        bindE (lift (py_iter active_boosts)) (\<lambda>items.
        bindE (lift (py_map boost_modification_type items)) (\<lambda>_.
          ret active_boosts))))))
       (\<lambda>err. ret (JArr []))"

definition use_boost :: "env \<Rightarrow> string \<Rightarrow> json \<Rightarrow> json \<Rightarrow> bool prog" where
  "use_boost E token boost_id boost_type =
     bindE (get_active_boosts E token) (\<lambda>active_boosts.
     bindE (lift (py_iter active_boosts)) (\<lambda>items.
     bindE (lift (py_any (\<lambda>boost. bindR (boost_modification_type boost)
                                      (\<lambda>t. Inr (t = boost_type))) items)) (\<lambda>already_active.
       if already_active then ret False
       else
         try_except
           (bindE (session_request E POST Boost_modification_buy token
                     (Some (JObj [(''boostModificationId'', boost_id)]))) (\<lambda>response.
            bindE (lift (raise_for_status response)) (\<lambda>_.
              ret True)))
           (\<lambda>err. ret False))))"

definition get_boosts :: "env \<Rightarrow> string \<Rightarrow> json prog" where
  "get_boosts E token =
     try_except
       (bindE (session_request E GET Boost_modification token None) (\<lambda>response.
        bindE (lift (raise_for_status response)) (\<lambda>_.
        bindE (lift (response_json response)) (\<lambda>body.
          lift (subscript body ''data'')))))
       (\<lambda>err. ret (JArr []))"

definition is_available_refill :: "json \<Rightarrow> exn + bool" where
  "is_available_refill b =
     bindR (subscript b ''type'') (\<lambda>t.
       if t = JStr ''REFILL_ENERGY'' then
         bindR (subscript b ''available'') (\<lambda>a.
         bindR (py_num a) (\<lambda>n. Inr (0 < n)))
       else Inr False)"

definition get_refill_boost :: "env \<Rightarrow> string \<Rightarrow> json prog" where
  "get_refill_boost E token =
     bindE (get_boosts E token) (\<lambda>boosts.
     bindE (lift (py_iter boosts)) (\<lambda>items.
       lift (py_next is_available_refill items)))"

definition use_refill_boost :: "env \<Rightarrow> string \<Rightarrow> bool prog" where
  "use_refill_boost E token =
     bindE (get_refill_boost E token) (\<lambda>refill_boost.
       if truthy refill_boost then
         bindE (lift (subscript refill_boost ''id'')) (\<lambda>boost_id.
           try_except
             (bindE (session_request E POST Boost_modification_buy token
                       (Some (JObj [(''boostModificationId'', boost_id)]))) (\<lambda>response.
              bindE (lift (raise_for_status response)) (\<lambda>_.
              bindE (lift (response_json response)) (\<lambda>result.
              bindE (lift (subscript result ''id'')) (\<lambda>_.
                ret True)))))
             (\<lambda>err. ret False))
       else ret False)"

section \<open>Mission runner\<close>

definition add_missions_completed :: "int \<Rightarrow> unit prog" where
  "add_missions_completed n w =
     (Inr (), w\<lparr>user_stats := (user_stats w)\<lparr>missions_completed := missions_completed (user_stats w) + n\<rparr>\<rparr>)"

text \<open>The body of the loop of \<open>process_missions\<close> (lines 130-141) for one mission.\<close>

definition process_mission :: "env \<Rightarrow> string \<Rightarrow> json \<Rightarrow> unit prog" where
  "process_mission E token mission =
     bindE (lift (subscript mission ''id'')) (\<lambda>mission_id.
     bindE (lift (subscript mission ''label'')) (\<lambda>mission_label.
     bindE (lift (subscript mission ''completedPercent'')) (\<lambda>completed_percent.
     bindE (if completed_percent \<noteq> JStr ''100'' then
              bindE (complete_mission E token mission_id) (\<lambda>completed.
                if completed then
                  bindE (claim_mission_reward E token mission_id) (\<lambda>claimed.
                    if claimed then add_missions_completed 1 else ret ())
                else ret ())
            else ret ()) (\<lambda>_.
       sleep 5000))))"

definition process_missions :: "env \<Rightarrow> string \<Rightarrow> string \<Rightarrow> unit prog" where
  "process_missions E token campaign_id =
     bindE (get_campaign_missions E token campaign_id) (\<lambda>missions.
     bindE (lift (py_iter missions)) (\<lambda>items.
       for_each (process_mission E token) items))"

section \<open>Boost manager\<close>

text \<open>The body of the loop of \<open>use_available_boosts\<close> (lines 414-416) for one boost.\<close>

definition use_if_available :: "env \<Rightarrow> string \<Rightarrow> json \<Rightarrow> unit prog" where
  "use_if_available E token boost =
     bindE (lift (subscript boost ''available'')) (\<lambda>a.
     bindE (lift (py_num a)) (\<lambda>available.
       if 0 < available then
         bindE (lift (subscript boost ''id'')) (\<lambda>boost_id.
         bindE (lift (subscript boost ''type'')) (\<lambda>boost_type.
         bindE (use_boost E token boost_id boost_type) (\<lambda>_.
           sleep 1000)))
       else ret ()))"

definition use_available_boosts :: "env \<Rightarrow> string \<Rightarrow> unit prog" where
  "use_available_boosts E token =
     bindE (get_boosts E token) (\<lambda>boosts.
     bindE (lift (py_iter boosts)) (\<lambda>items.
       for_each (use_if_available E token) items))"

section \<open>Auto-tap loop\<close>

text \<open>The local variables of \<open>auto_play_game\<close> that live across iterations.\<close>

record loop_vars =
  tapping_count :: int
  consecutive_failures :: nat
  last_boost_check :: nat

text \<open>
  Which \<open>return\<close> ended the loop: after the freeze (line 389), after the failure limit
  (lines 367 and 402), after a refill that did not succeed (line 384).
\<close>

datatype terminal = Frozen | Stopped_Failure | Stopped_SwitchAccount

datatype step = Continue loop_vars | Return terminal

definition max_consecutive_failures :: nat where
  "max_consecutive_failures = 5"

definition boost_check_interval :: nat where
  "boost_check_interval = 300000"

definition add_taps_performed :: "int \<Rightarrow> unit prog" where
  "add_taps_performed n w =
     (Inr (), w\<lparr>user_stats := (user_stats w)\<lparr>taps_performed := taps_performed (user_stats w) + n\<rparr>\<rparr>)"

text \<open>\<open>asyncio.sleep(0.8 + random.random() * 0.4)\<close>: between 800 and 1199 ms.\<close>

definition jitter_sleep :: "env \<Rightarrow> unit prog" where
  "jitter_sleep E w = sleep (800 + jitter_of E (length (trace w)) mod 400) w"

text \<open>Lines 356-360: the periodic boost check at the top of the loop.\<close>

definition boost_check :: "env \<Rightarrow> string \<Rightarrow> loop_vars \<Rightarrow> loop_vars prog" where
  "boost_check E token v w =
     (let current_time = clock w in
      if boost_check_interval \<le> current_time - last_boost_check v then
        bindE (use_available_boosts E token)
          (\<lambda>_. ret (v\<lparr>last_boost_check := current_time\<rparr>)) w
      else ret v w)"

text \<open>Lines 391-409: the tap, the bookkeeping of its result and the pacing delay.\<close>

definition tap_step :: "env \<Rightarrow> string \<Rightarrow> loop_vars \<Rightarrow> int \<Rightarrow> step prog" where
  "tap_step E token v current_clicks =
     bindE (perform_tapping E token 15) (\<lambda>result.
     bindE (if truthy result then
              bindE (lift (subscript result ''currentClickedCount'')) (\<lambda>c.
              bindE (lift (py_num c)) (\<lambda>new_click_count.
                let taps = new_click_count - current_clicks in
                bindE (add_taps_performed taps) (\<lambda>_.
                  ret (Continue (v\<lparr>tapping_count := tapping_count v + taps,
                                    consecutive_failures := 0\<rparr>)))))
            else
              (let failures = consecutive_failures v + 1 in
               if max_consecutive_failures \<le> failures then ret (Return Stopped_Failure)
               else ret (Continue (v\<lparr>consecutive_failures := failures\<rparr>)))) (\<lambda>s.
       case s of
         Return t \<Rightarrow> ret (Return t)
       | Continue v' \<Rightarrow> bindE (jitter_sleep E) (\<lambda>_. ret (Continue v'))))"

text \<open>
  One iteration of \<open>while True\<close> (lines 356-409). The comparison with
  \<open>total_limit * refill_threshold\<close> is the exact one, which the float product is for the
  counts of the service.
\<close>

definition auto_play_body :: "env \<Rightarrow> string \<Rightarrow> rat \<Rightarrow> loop_vars \<Rightarrow> step prog" where
  "auto_play_body E token refill_threshold v0 =
     bindE (boost_check E token v0) (\<lambda>v.
     bindE (get_game_status E token) (\<lambda>status.
       if status = JNull then
         (let failures = consecutive_failures v + 1 in
          if max_consecutive_failures \<le> failures then ret (Return Stopped_Failure)
          else bindE (sleep 5000) (\<lambda>_. ret (Continue (v\<lparr>consecutive_failures := failures\<rparr>))))
       else
         bindE (lift (subscript status ''currentClickedCount'')) (\<lambda>c.
         bindE (lift (subscript status ''totalClicksLimit'')) (\<lambda>t.
         bindE (lift (py_num t)) (\<lambda>total_limit.
         bindE (lift (py_num c)) (\<lambda>current_clicks.
           if of_int total_limit * refill_threshold \<le> of_int current_clicks then
             bindE (use_refill_boost E token) (\<lambda>refilled.
               if refilled then bindE (sleep 2000) (\<lambda>_. ret (Continue v))
               else ret (Return Stopped_SwitchAccount))
           else if total_limit \<le> current_clicks then
             bindE (freeze_game E token) (\<lambda>_. ret (Return Frozen))
           else tap_step E token v current_clicks))))))"

text \<open>
  The loop runs until an iteration returns or raises; \<open>fuel\<close> bounds the iterations, and
  \<open>None\<close> says that the loop has not ended within them.
\<close>

fun auto_play_loop ::
  "nat \<Rightarrow> env \<Rightarrow> string \<Rightarrow> rat \<Rightarrow> loop_vars \<Rightarrow> world \<Rightarrow> ((exn + terminal) \<times> world) option" where
  "auto_play_loop 0 E token refill_threshold v w = None"
| "auto_play_loop (Suc fuel) E token refill_threshold v w =
     (case auto_play_body E token refill_threshold v w of
        (Inl e, w') \<Rightarrow> Some (Inl e, w')
      | (Inr (Return t), w') \<Rightarrow> Some (Inr t, w')
      | (Inr (Continue v'), w') \<Rightarrow> auto_play_loop fuel E token refill_threshold v' w')"

definition auto_play_game ::
  "nat \<Rightarrow> env \<Rightarrow> string \<Rightarrow> rat \<Rightarrow> world \<Rightarrow> ((exn + terminal) \<times> world) option" where
  "auto_play_game fuel E token refill_threshold w =
     auto_play_loop fuel E token refill_threshold
       \<lparr>tapping_count = 0, consecutive_failures = 0, last_boost_check = clock w\<rparr> w"

section \<open>Upgrade runner and account orchestrator\<close>

definition CAMPAIGN_ID :: string where
  "CAMPAIGN_ID = ''d6a146d0-092b-4206-8b02-8d00c05d7a89''"

text \<open>\<open>answer.lower() == 'y'\<close>.\<close>

definition is_yes :: "string \<Rightarrow> bool" where
  "is_yes answer = (answer = ''y'' \<or> answer = ''Y'')"

definition set_initial_level :: "json \<Rightarrow> unit prog" where
  "set_initial_level level w = (Inr (), w\<lparr>user_stats := (user_stats w)\<lparr>initial_level := level\<rparr>\<rparr>)"

text \<open>Lines 436-442: \<open>for i in range(upgrade_count)\<close>, with \<open>n\<close> iterations left.\<close>

fun level_upgrade_loop :: "nat \<Rightarrow> env \<Rightarrow> string \<Rightarrow> unit prog" where
  "level_upgrade_loop 0 E token = ret ()"
| "level_upgrade_loop (Suc n) E token =
     bindE (upgrade_level E token) (\<lambda>r.
       if fst r then
         bindE (set_final_level (snd r)) (\<lambda>_.
         bindE (sleep 2000) (\<lambda>_.
           level_upgrade_loop n E token))
       else ret ())"

text \<open>Lines 451-455 and 458-462: the loop over one tapping upgrade.\<close>

fun tapping_upgrade_loop :: "nat \<Rightarrow> env \<Rightarrow> string \<Rightarrow> json \<Rightarrow> string \<Rightarrow> unit prog" where
  "tapping_upgrade_loop 0 E token upgrade upgrade_type = ret ()"
| "tapping_upgrade_loop (Suc n) E token upgrade upgrade_type =
     bindE (lift (subscript upgrade ''id'')) (\<lambda>upgrade_id.
     bindE (upgrade_tapping E token upgrade_id upgrade_type) (\<lambda>r.
       if \<not> fst r then ret ()
       else
         bindE (sleep 2000) (\<lambda>_.
           tapping_upgrade_loop n E token upgrade upgrade_type)))"

definition has_boost_type :: "string \<Rightarrow> json \<Rightarrow> exn + bool" where
  "has_boost_type name u = bindR (subscript u ''boostType'') (\<lambda>t. Inr (t = JStr name))"

text \<open>\<open>summarize_upgrades\<close> only writes to the log, from fields that are always there.\<close>

definition summarize_upgrades :: "unit prog" where
  "summarize_upgrades = ret ()"

text \<open>Lines 427-464: what \<open>process_account\<close> does inside its \<open>try\<close> before the auto-tap.\<close>

definition account_phases ::
  "env \<Rightarrow> string \<Rightarrow> string \<Rightarrow> int \<Rightarrow> string \<Rightarrow> int \<Rightarrow> int \<Rightarrow> unit prog" where
  "account_phases E token auto_upgrade upgrade_count auto_upgrade_tapping
       damage_upgrade_count limit_upgrade_count =
     bindE (claim_daily E token) (\<lambda>_.
     bindE (sleep 2000) (\<lambda>_.
     bindE (process_missions E token CAMPAIGN_ID) (\<lambda>_.
     bindE (if is_yes auto_upgrade then
              bindE (get_levels E token) (\<lambda>levels.
                if truthy levels then
                  bindE (lift (bindR (py_last levels) (\<lambda>l. subscript l ''level''))) (\<lambda>level.
                  bindE (set_initial_level level) (\<lambda>_.
                  bindE (set_final_level level) (\<lambda>_.
                    level_upgrade_loop (nat upgrade_count) E token)))
                else ret ())
            else ret ()) (\<lambda>_.
     bindE (if is_yes auto_upgrade_tapping then
              bindE (get_tapping_upgrades E token) (\<lambda>upgrades.
                if truthy upgrades then
                  bindE (lift (py_iter upgrades)) (\<lambda>items.
                  bindE (lift (py_next (has_boost_type ''CLICKER_DAMAGE'') items)) (\<lambda>damage_upgrade.
                  bindE (lift (py_next (has_boost_type ''CLICKER_ENERGY'') items)) (\<lambda>limit_upgrade.
                  bindE (if truthy damage_upgrade then
                           tapping_upgrade_loop (nat damage_upgrade_count) E token
                             damage_upgrade ''Damage''
                         else ret ()) (\<lambda>_.
                    if truthy limit_upgrade then
                      tapping_upgrade_loop (nat limit_upgrade_count) E token
                        limit_upgrade ''Limit energy''
                    else ret ()))))
                else ret ())
            else ret ()) (\<lambda>_.
       summarize_upgrades)))))"

text \<open>
  \<open>process_account\<close>: the login outside the \<open>try\<close>, the phases and the auto-tap inside
  it, and the wait of 10 s after it. \<open>None\<close> says that the auto-tap loop has not ended
  within \<open>fuel\<close> iterations.
\<close>

definition process_account ::
  "nat \<Rightarrow> env \<Rightarrow> string \<Rightarrow> string \<Rightarrow> int \<Rightarrow> string \<Rightarrow> int \<Rightarrow> int \<Rightarrow> string \<Rightarrow> world
     \<Rightarrow> ((exn + unit) \<times> world) option" where
  "process_account fuel E token auto_upgrade upgrade_count auto_upgrade_tapping
       damage_upgrade_count limit_upgrade_count auto_tapping w =
     (case login E token w of
        (Inl e, w1) \<Rightarrow> Some (Inl e, w1)
      | (Inr name, w1) \<Rightarrow>
          if \<not> truthy name then Some (Inr (), w1)
          else
            (case account_phases E token auto_upgrade upgrade_count auto_upgrade_tapping
                    damage_upgrade_count limit_upgrade_count
                    (w1\<lparr>user_stats := new_UserStats name\<rparr>) of
               (Inl e, w2) \<Rightarrow> Some (sleep 10000 w2)
             | (Inr u, w2) \<Rightarrow>
                 if is_yes auto_tapping then
                   (case auto_play_game fuel E token (875 / 1000) w2 of
                      None \<Rightarrow> None
                    | Some (r, w3) \<Rightarrow> Some (sleep 10000 w3))
                 else Some (sleep 10000 w2)))"

section \<open>The batch\<close>






section \<open>Environments and states of the examples\<close>

text \<open>The service answers the calls with the replies of a script, in order, at once; when
  the script is over the transport fails.\<close>

definition scripted :: "reply list \<Rightarrow> env" where
  "scripted rs =
     \<lparr>reply_of = (\<lambda>k. if k < length rs then rs ! k else Transport_error),
      latency_of = (\<lambda>k. 0), jitter_of = (\<lambda>k. 0)\<rparr>"

definition start :: world where
  "start = \<lparr>trace = [], clock = 0, user_stats = new_UserStats JNull\<rparr>"


definition mission_half :: json where
  "mission_half = JObj [(''id'', JNum 2), (''label'', JStr ''b''), (''completedPercent'', JStr ''50'')]"


text \<open>A tapping upgrade card, and a service that answers a purchase with status 201 and
  an object without \<open>level\<close>.\<close>

definition damage_card :: json where
  "damage_card = JObj [(''id'', JNum 7), (''boostType'', JStr ''CLICKER_DAMAGE'')]"

definition created_without_level :: env where
  "created_without_level = scripted [Response 201 (Some (JObj []))]"

text \<open>The loop variables at the start of a run, a game status, and a service whose first
  reply is that status.\<close>

definition fresh_vars :: loop_vars where
  "fresh_vars = \<lparr>tapping_count = 0, consecutive_failures = 0, last_boost_check = 0\<rparr>"

definition game_status :: "int \<Rightarrow> int \<Rightarrow> json" where
  "game_status c t = JObj [(''currentClickedCount'', JNum c), (''totalClicksLimit'', JNum t)]"

definition reports :: "int \<Rightarrow> int \<Rightarrow> env" where
  "reports c t = scripted [Response 200 (Some (game_status c t))]"




definition tap_counted :: env where
  "tap_counted = scripted [Response 200 (Some (game_status 80 100)),
                           Response 200 (Some (game_status 95 100))]"


text \<open>A service that reports 50 clicks of 100 and answers the tap with 10.\<close>

definition drops :: env where
  "drops = scripted [Response 200 (Some (game_status 50 100)),
                     Response 200 (Some (game_status 10 100))]"

text \<open>A service that answers at once: the login, an unclaimed daily reward and its claim,
  one open mission, its completion and its reward.\<close>

definition busy :: env where
  "busy = scripted
     [Response 200 (Some (JObj [(''user'', JObj [(''nickname'', JStr ''ann'')])])),
      Response 200 (Some (JObj [(''todayClaimed'', JBool False)])),
      Response 200 None,
      Response 200 (Some (JObj [(''data'', JArr [mission_half])])),
      Response 200 (Some (JObj [(''success'', JBool True)])),
      Response 201 None]"

section \<open>Vocabulary of the statements\<close>



text \<open>The state after a call has been dispatched and answered.\<close>

definition dispatched ::
  "env \<Rightarrow> http_method \<Rightarrow> endpoint \<Rightarrow> string \<Rightarrow> json option \<Rightarrow> world \<Rightarrow> world" where
  "dispatched E m ep token pl w =
     w\<lparr>trace := trace w @ [Request m ep token pl (clock w)],
       clock := clock w + latency_of E (length (trace w))\<rparr>"


text \<open>A computation keeps a relation between the state before and the state after it;
  a relation is quiet when it is reflexive and transitive, blind to the clock, and kept by
  every call but the login call and by every update of the statistics but that of
  \<open>taps_performed\<close>; it is blind to the taps when it is kept by that one too.\<close>

definition keeps :: "(world \<Rightarrow> world \<Rightarrow> bool) \<Rightarrow> 'a prog \<Rightarrow> bool" where
  "keeps R m = (\<forall>w. R w (snd (m w)))"

definition quiet :: "(world \<Rightarrow> world \<Rightarrow> bool) \<Rightarrow> env \<Rightarrow> bool" where
  "quiet R E =
     ((\<forall>w. R w w) \<and> (\<forall>a b c. R a b \<longrightarrow> R b c \<longrightarrow> R a c)
      \<and> (\<forall>w t. R w (w\<lparr>clock := t\<rparr>))
      \<and> (\<forall>m ep token pl. ep \<noteq> Scoreboard_me \<longrightarrow> keeps R (session_request E m ep token pl))
      \<and> (\<forall>l. keeps R (set_initial_level l)) \<and> (\<forall>l. keeps R (set_final_level l))
      \<and> keeps R (add_damage_upgrades 1) \<and> keeps R (add_limit_upgrades 1)
      \<and> keeps R (add_missions_completed 1))"

definition tap_blind :: "(world \<Rightarrow> world \<Rightarrow> bool) \<Rightarrow> bool" where
  "tap_blind R = (\<forall>n. keeps R (add_taps_performed n))"



text \<open>Orderings of the statistics of two states: the three counters that only ever get
  1 added, and \<open>taps_performed\<close>. The click count that a reply reports, and a service whose
  reported click count is never lower than in the reply just before.\<close>

definition counters_le :: "world \<Rightarrow> world \<Rightarrow> bool" where
  "counters_le w w' =
     (damage_upgrades (user_stats w) \<le> damage_upgrades (user_stats w')
      \<and> limit_upgrades (user_stats w) \<le> limit_upgrades (user_stats w')
      \<and> missions_completed (user_stats w) \<le> missions_completed (user_stats w'))"

definition taps_le :: "world \<Rightarrow> world \<Rightarrow> bool" where
  "taps_le w w' = (taps_performed (user_stats w) \<le> taps_performed (user_stats w'))"

definition taps_same :: "world \<Rightarrow> world \<Rightarrow> bool" where
  "taps_same w w' = (taps_performed (user_stats w') = taps_performed (user_stats w))"

definition reported_clicks :: "reply \<Rightarrow> int option" where
  "reported_clicks r =
     (case r of
        Transport_error \<Rightarrow> None
      | Response s b \<Rightarrow>
          (case b of
             None \<Rightarrow> None
           | Some j \<Rightarrow>
               (case bindR (subscript j ''currentClickedCount'') py_num of
                  Inl e \<Rightarrow> None
                | Inr n \<Rightarrow> Some n)))"

definition counts_never_drop :: "env \<Rightarrow> bool" where
  "counts_never_drop E =
     (\<forall>k c n. reported_clicks (reply_of E k) = Some c \<longrightarrow>
              reported_clicks (reply_of E (Suc k)) = Some n \<longrightarrow> c \<le> n)"

text \<open>The number of calls of a trace dispatched in the window that starts at \<open>t0\<close>.\<close>

definition calls_within :: "nat \<Rightarrow> nat \<Rightarrow> request list \<Rightarrow> nat" where
  "calls_within t0 period tr =
     length (filter (\<lambda>q. t0 \<le> sent_at q \<and> sent_at q < t0 + period) tr)"

section \<open>Basic facts about the computations\<close>

lemma bindE_ret [simp]: "bindE (ret x) f = f x"
  by (rule ext) (simp add: bindE_def ret_def)

lemma bindE_lift_Inr [simp]: "bindE (lift (Inr x)) f = f x"
  by (rule ext) (simp add: bindE_def lift_def)

lemma bindE_lift_Inl [simp]: "bindE (lift (Inl e)) f w = (Inl e, w)"
  by (simp add: bindE_def lift_def)

lemma try_except_ret_returns: "\<not> isl (fst (try_except m (\<lambda>err. ret v) w))"
  by (simp add: try_except_def ret_def split: prod.splits sum.splits)



lemmas run_defs = try_except_def bindE_def session_request_def Let_def lift_def ret_def
  raise_for_status_def response_json_def



















lemma get_game_status_returns: "\<not> isl (fst (get_game_status E token w))"
  unfolding get_game_status_def by (rule try_except_ret_returns)

lemma perform_tapping_returns: "\<not> isl (fst (perform_tapping E token click_count w))"
  unfolding perform_tapping_def by (rule try_except_ret_returns)



lemma returnsD: "\<not> isl (fst (m w)) \<Longrightarrow> \<exists>x w'. m w = (Inr x, w')"
  by (cases "m w"; cases "fst (m w)") auto











lemma session_request_world:
  "snd (session_request E m ep token pl w) = dispatched E m ep token pl w"
  by (simp add: session_request_def dispatched_def Let_def split: reply.splits)




lemma get_game_status_world:
  "snd (get_game_status E token w)
     = dispatched E POST Game_clicker_submit token (Some (JObj [(''clickedCount'', JNum 0)])) w"
  unfolding get_game_status_def
  by (auto simp: run_defs dispatched_def split: reply.splits option.splits sum.splits)

lemma perform_tapping_world:
  "snd (perform_tapping E token n w)
     = dispatched E POST Game_clicker_submit token (Some (JObj [(''clickedCount'', JNum n)])) w"
  unfolding perform_tapping_def
  by (auto simp: run_defs dispatched_def split: reply.splits option.splits sum.splits)


lemma subscript_not_null: "subscript j k = Inr x \<Longrightarrow> j \<noteq> JNull"
  by (cases j) auto

lemma boost_check_failures:
  "boost_check E token v0 w = (Inr v, w1) \<Longrightarrow> consecutive_failures v = consecutive_failures v0"
  by (auto simp: boost_check_def Let_def bindE_def ret_def split: if_splits prod.splits sum.splits)


text \<open>The iteration from a fetched status on.\<close>

lemma body_status_failed:
  assumes "boost_check E token v0 w = (Inr v, w1)"
    and "get_game_status E token w1 = (Inr JNull, w2)"
  shows "auto_play_body E token thr v0 w =
           (if max_consecutive_failures \<le> consecutive_failures v0 + 1
            then (Inr (Return Stopped_Failure), w2)
            else (Inr (Continue (v\<lparr>consecutive_failures := consecutive_failures v0 + 1\<rparr>)),
                  w2\<lparr>clock := clock w2 + 5000\<rparr>))"
  using assms boost_check_failures [OF assms(1)]
  by (simp add: auto_play_body_def bindE_def Let_def ret_def sleep_def)

lemma body_status_fetched:
  assumes "boost_check E token v0 w = (Inr v, w1)"
    and "get_game_status E token w1 = (Inr status, w2)"
    and "subscript status ''currentClickedCount'' = Inr c"
    and "py_num c = Inr current_clicks"
    and "subscript status ''totalClicksLimit'' = Inr t"
    and "py_num t = Inr total_limit"
  shows "auto_play_body E token thr v0 w =
           (if of_int total_limit * thr \<le> of_int current_clicks then
              bindE (use_refill_boost E token) (\<lambda>refilled.
                if refilled then bindE (sleep 2000) (\<lambda>_. ret (Continue v))
                else ret (Return Stopped_SwitchAccount)) w2
            else if total_limit \<le> current_clicks then
              bindE (freeze_game E token) (\<lambda>_. ret (Return Frozen)) w2
            else tap_step E token v current_clicks w2)"
  using assms subscript_not_null [OF assms(3)]
  by (simp add: auto_play_body_def bindE_def lift_def)





lemma tap_step_failed:
  assumes "perform_tapping E token 15 w2 = (Inr result, w3)" and "\<not> truthy result"
  shows "tap_step E token v current_clicks w2 =
           (if max_consecutive_failures \<le> consecutive_failures v + 1
            then (Inr (Return Stopped_Failure), w3)
            else (Inr (Continue (v\<lparr>consecutive_failures := consecutive_failures v + 1\<rparr>)),
                  snd (jitter_sleep E w3)))"
  using assms
  by (simp add: tap_step_def bindE_def ret_def Let_def jitter_sleep_def sleep_def)

lemma tap_step_succeeded:
  assumes "perform_tapping E token 15 w2 = (Inr result, w3)" and "truthy result"
    and "subscript result ''currentClickedCount'' = Inr n" and "py_num n = Inr new_click_count"
  shows "fst (tap_step E token v current_clicks w2) =
           Inr (Continue (v\<lparr>tapping_count := tapping_count v + (new_click_count - current_clicks),
                            consecutive_failures := 0\<rparr>))
       \<and> taps_performed (user_stats (snd (tap_step E token v current_clicks w2)))
           = taps_performed (user_stats w3) + (new_click_count - current_clicks)"
  using assms
  by (simp add: tap_step_def bindE_def ret_def lift_def Let_def jitter_sleep_def sleep_def
      add_taps_performed_def)




section \<open>Relations kept by the operations\<close>

lemma keeps_ret: "quiet R E \<Longrightarrow> keeps R (ret x)"
  by (simp add: keeps_def quiet_def ret_def)

lemma keeps_lift: "quiet R E \<Longrightarrow> keeps R (lift r)"
  by (simp add: keeps_def quiet_def lift_def)

lemma keeps_sleep: "quiet R E \<Longrightarrow> keeps R (sleep ms)"
  by (simp add: keeps_def quiet_def sleep_def)

lemma keeps_bindE:
  assumes "quiet R E" and "keeps R m" and "\<And>x. keeps R (f x)"
  shows "keeps R (bindE m f)"
  unfolding keeps_def
proof
  fix w
  have trans: "\<And>a b c. R a b \<Longrightarrow> R b c \<Longrightarrow> R a c"
    using assms(1) unfolding quiet_def by blast
  show "R w (snd (bindE m f w))"
  proof (cases "m w")
    case (Pair r w')
    then have 1: "R w w'" using assms(2) unfolding keeps_def by (metis snd_conv)
    show ?thesis
    proof (cases r)
      case (Inl e)
      with Pair 1 show ?thesis by (simp add: bindE_def)
    next
      case (Inr x)
      have "R w' (snd (f x w'))" using assms(3) unfolding keeps_def by blast
      with Pair Inr 1 show ?thesis by (auto simp: bindE_def intro: trans)
    qed
  qed
qed

lemma keeps_try_except:
  assumes "quiet R E" and "keeps R m" and "\<And>e. keeps R (h e)"
  shows "keeps R (try_except m h)"
  unfolding keeps_def
proof
  fix w
  have trans: "\<And>a b c. R a b \<Longrightarrow> R b c \<Longrightarrow> R a c"
    using assms(1) unfolding quiet_def by blast
  show "R w (snd (try_except m h w))"
  proof (cases "m w")
    case (Pair r w')
    then have 1: "R w w'" using assms(2) unfolding keeps_def by (metis snd_conv)
    show ?thesis
    proof (cases r)
      case (Inr x)
      with Pair 1 show ?thesis by (simp add: try_except_def)
    next
      case (Inl e)
      have "R w' (snd (h e w'))" using assms(3) unfolding keeps_def by blast
      with Pair Inl 1 show ?thesis by (auto simp: try_except_def intro: trans)
    qed
  qed
qed

lemma keeps_if: "keeps R a \<Longrightarrow> keeps R b \<Longrightarrow> keeps R (if c then a else b)"
  by simp

lemma keeps_for_each:
  assumes "quiet R E" and "\<And>x. keeps R (f x)"
  shows "keeps R (for_each f xs)"
proof (induction xs)
  case Nil
  show ?case using assms(1) by (simp add: keeps_def quiet_def)
next
  case (Cons x xs)
  have "for_each f (x # xs) = bindE (f x) (\<lambda>_. for_each f xs)"
    by (rule ext) (simp add: bindE_def split: prod.splits sum.splits)
  then show ?case
    using keeps_bindE [OF assms(1) assms(2) [of x], of "\<lambda>_. for_each f xs"] Cons by simp
qed

lemma keeps_call:
  "quiet R E \<Longrightarrow> ep \<noteq> Scoreboard_me \<Longrightarrow> keeps R (session_request E m ep token pl)"
  by (simp add: quiet_def)

lemma keeps_case_step:
  "(\<And>v. keeps R (f v)) \<Longrightarrow> (\<And>t. keeps R (g t)) \<Longrightarrow>
   keeps R (case s of Continue v \<Rightarrow> f v | Return t \<Rightarrow> g t)"
  by (cases s) auto

lemma keeps_stats:
  assumes "quiet R E"
  shows "keeps R (set_initial_level l)" and "keeps R (set_final_level l)"
    and "keeps R (add_damage_upgrades 1)" and "keeps R (add_limit_upgrades 1)"
    and "keeps R (add_missions_completed 1)"
  using assms unfolding quiet_def by blast+

lemma keeps_taps: "tap_blind R \<Longrightarrow> keeps R (add_taps_performed n)"
  by (simp add: tap_blind_def)

lemma keeps_jitter_sleep: "quiet R E \<Longrightarrow> keeps R (jitter_sleep E')"
  by (simp add: keeps_def quiet_def jitter_sleep_def sleep_def)

lemmas keeps_rules = keeps_bindE keeps_try_except keeps_ret keeps_lift keeps_sleep keeps_if
  keeps_for_each keeps_call keeps_case_step keeps_stats keeps_jitter_sleep

lemma keeps_get_campaign_missions:
  "quiet R E \<Longrightarrow> keeps R (get_campaign_missions E token c)"
  unfolding get_campaign_missions_def Let_def
  by (intro keeps_rules ; (assumption | simp))

lemma keeps_complete_mission:
  "quiet R E \<Longrightarrow> keeps R (complete_mission E token mid)"
  unfolding complete_mission_def Let_def
  by (intro keeps_rules ; (assumption | simp))

lemma keeps_claim_mission_reward:
  "quiet R E \<Longrightarrow> keeps R (claim_mission_reward E token mid)"
  unfolding claim_mission_reward_def Let_def
  by (intro keeps_rules ; (assumption | simp))

lemma keeps_claim_daily:
  "quiet R E \<Longrightarrow> keeps R (claim_daily E token)"
  unfolding claim_daily_def Let_def
  by (intro keeps_rules ; (assumption | simp))

lemma keeps_get_levels:
  "quiet R E \<Longrightarrow> keeps R (get_levels E token)"
  unfolding get_levels_def Let_def
  by (intro keeps_rules ; (assumption | simp))

lemma keeps_get_tapping_upgrades:
  "quiet R E \<Longrightarrow> keeps R (get_tapping_upgrades E token)"
  unfolding get_tapping_upgrades_def Let_def
  by (intro keeps_rules ; (assumption | simp))

lemma keeps_upgrade_level:
  "quiet R E \<Longrightarrow> keeps R (upgrade_level E token)"
  unfolding upgrade_level_def Let_def
  by (intro keeps_rules ; (assumption | simp))

lemma keeps_upgrade_tapping:
  "quiet R E \<Longrightarrow> keeps R (upgrade_tapping E token uid ut)"
  unfolding upgrade_tapping_def Let_def
  by (intro keeps_rules ; (assumption | simp))

lemma keeps_get_game_status:
  "quiet R E \<Longrightarrow> keeps R (get_game_status E token)"
  unfolding get_game_status_def Let_def
  by (intro keeps_rules ; (assumption | simp))

lemma keeps_perform_tapping:
  "quiet R E \<Longrightarrow> keeps R (perform_tapping E token n)"
  unfolding perform_tapping_def Let_def
  by (intro keeps_rules ; (assumption | simp))

lemma keeps_freeze_game:
  "quiet R E \<Longrightarrow> keeps R (freeze_game E token)"
  unfolding freeze_game_def Let_def
  by (intro keeps_rules ; (assumption | simp))

lemma keeps_get_active_boosts:
  "quiet R E \<Longrightarrow> keeps R (get_active_boosts E token)"
  unfolding get_active_boosts_def Let_def
  by (intro keeps_rules ; (assumption | simp))

lemma keeps_use_boost:
  "quiet R E \<Longrightarrow> keeps R (use_boost E token bid bt)"
  unfolding use_boost_def Let_def
  by (intro keeps_rules keeps_get_active_boosts; (assumption | simp))

lemma keeps_get_boosts:
  "quiet R E \<Longrightarrow> keeps R (get_boosts E token)"
  unfolding get_boosts_def Let_def
  by (intro keeps_rules ; (assumption | simp))

lemma keeps_get_refill_boost:
  "quiet R E \<Longrightarrow> keeps R (get_refill_boost E token)"
  unfolding get_refill_boost_def Let_def
  by (intro keeps_rules keeps_get_boosts; (assumption | simp))

lemma keeps_use_refill_boost:
  "quiet R E \<Longrightarrow> keeps R (use_refill_boost E token)"
  unfolding use_refill_boost_def Let_def
  by (intro keeps_rules keeps_get_refill_boost; (assumption | simp))

lemma keeps_process_mission:
  "quiet R E \<Longrightarrow> keeps R (process_mission E token mission)"
  unfolding process_mission_def Let_def
  by (intro keeps_rules keeps_complete_mission keeps_claim_mission_reward; (assumption | simp))

lemma keeps_process_missions:
  "quiet R E \<Longrightarrow> keeps R (process_missions E token c)"
  unfolding process_missions_def Let_def
  by (intro keeps_rules keeps_get_campaign_missions keeps_process_mission; (assumption | simp))

lemma keeps_use_if_available:
  "quiet R E \<Longrightarrow> keeps R (use_if_available E token boost)"
  unfolding use_if_available_def Let_def
  by (intro keeps_rules keeps_use_boost; (assumption | simp))

lemma keeps_use_available_boosts:
  "quiet R E \<Longrightarrow> keeps R (use_available_boosts E token)"
  unfolding use_available_boosts_def Let_def
  by (intro keeps_rules keeps_get_boosts keeps_use_if_available; (assumption | simp))

lemma keeps_tap_step:
  "quiet R E \<Longrightarrow> tap_blind R \<Longrightarrow> keeps R (tap_step E token v cc)"
  unfolding tap_step_def Let_def
  by (intro keeps_rules keeps_perform_tapping keeps_taps; (assumption | simp))

lemma keeps_boost_check:
  assumes "quiet R E"
  shows "keeps R (boost_check E token v)"
proof -
  have "keeps R (bindE (use_available_boosts E token) (\<lambda>_. ret (v\<lparr>last_boost_check := t\<rparr>)))" for t
    by (intro keeps_rules keeps_use_available_boosts; (rule assms | simp))
  moreover have "keeps R (ret v :: loop_vars prog)"
    using assms by (rule keeps_ret)
  ultimately show ?thesis
    unfolding keeps_def boost_check_def Let_def by simp
qed

lemma keeps_auto_play_body_but_tap:
  assumes "quiet R E" and "\<And>v c. keeps R (tap_step E token v c)"
  shows "keeps R (auto_play_body E token thr v)"
  unfolding auto_play_body_def Let_def
  by (intro keeps_rules keeps_boost_check keeps_get_game_status keeps_use_refill_boost
      keeps_freeze_game assms(2); (rule assms(1) | simp))

lemma keeps_auto_play_body:
  assumes "quiet R E" and "tap_blind R"
  shows "keeps R (auto_play_body E token thr v)"
  by (rule keeps_auto_play_body_but_tap [OF assms(1)]) (rule keeps_tap_step [OF assms])

lemma auto_play_loop_keeps:
  assumes "quiet R E" and body: "\<And>v. keeps R (auto_play_body E token thr v)"
  shows "auto_play_loop fuel E token thr v w = Some (r, w') \<Longrightarrow> R w w'"
proof (induction fuel arbitrary: v w)
  case 0
  then show ?case by simp
next
  case (Suc fuel)
  have trans: "\<And>a b c. R a b \<Longrightarrow> R b c \<Longrightarrow> R a c"
    using assms(1) unfolding quiet_def by blast
  have step: "R w (snd (auto_play_body E token thr v w))"
    using body unfolding keeps_def by blast
  show ?case
  proof (cases "auto_play_body E token thr v w")
    case (Pair r1 w1)
    with step have 1: "R w w1" by simp
    show ?thesis
    proof (cases r1)
      case (Inl e)
      with Pair Suc.prems 1 show ?thesis by simp
    next
      case (Inr s)
      show ?thesis
      proof (cases s)
        case (Return t)
        with Pair Inr Suc.prems 1 show ?thesis by simp
      next
        case (Continue v1)
        with Pair Inr Suc.prems have "auto_play_loop fuel E token thr v1 w1 = Some (r, w')"
          by simp
        from Suc.IH [OF this] 1 show ?thesis by (rule trans [rotated])
      qed
    qed
  qed
qed

lemma keeps_level_upgrade_loop:
  assumes "quiet R E"
  shows "keeps R (level_upgrade_loop n E token)"
proof (induction n)
  case 0
  show ?case by (simp add: keeps_ret [OF assms])
next
  case (Suc n)
  show ?case
    unfolding level_upgrade_loop.simps
    by (intro keeps_rules keeps_upgrade_level Suc; (rule assms | simp))
qed

lemma keeps_tapping_upgrade_loop:
  assumes "quiet R E"
  shows "keeps R (tapping_upgrade_loop n E token upgrade ut)"
proof (induction n)
  case 0
  show ?case by (simp add: keeps_ret [OF assms])
next
  case (Suc n)
  show ?case
    unfolding tapping_upgrade_loop.simps
    by (intro keeps_rules keeps_upgrade_tapping Suc; (rule assms | simp))
qed

lemma keeps_account_phases:
  "quiet R E \<Longrightarrow> keeps R (account_phases E token a b c d e)"
  unfolding account_phases_def summarize_upgrades_def
  by (intro keeps_rules keeps_claim_daily keeps_process_missions keeps_get_levels
      keeps_level_upgrade_loop keeps_get_tapping_upgrades keeps_tapping_upgrade_loop;
      (assumption | simp))


section \<open>Runs of the examples\<close>











section \<open>Pace of the remote calls\<close>

lemma busy_login:
  "login busy ''t'' \<lparr>trace = [], clock = 0, user_stats = s\<rparr>
     = (Inr (JStr ''ann''),
        \<lparr>trace = [Request GET Scoreboard_me ''t'' None 0], clock = 0, user_stats = s\<rparr>)"
  by (simp add: login_def run_defs busy_def scripted_def)

lemma busy_daily:
  "claim_daily busy ''t''
      \<lparr>trace = [Request GET Scoreboard_me ''t'' None 0], clock = 0, user_stats = s\<rparr>
     = (Inr (), \<lparr>trace = [Request GET Scoreboard_me ''t'' None 0,
                             Request GET Daily_rewards_today_info ''t'' None 0,
                             Request POST Daily_rewards_claim ''t'' None 0],
                 clock = 0, user_stats = s\<rparr>)"
  by (simp add: claim_daily_def run_defs busy_def scripted_def)

lemma busy_missions:
  "process_missions busy ''t'' CAMPAIGN_ID
      \<lparr>trace = [Request GET Scoreboard_me ''t'' None 0,
                             Request GET Daily_rewards_today_info ''t'' None 0,
                             Request POST Daily_rewards_claim ''t'' None 0],
                 clock = 2000, user_stats = new_UserStats (JStr ''ann'')\<rparr>
     = (Inr (), \<lparr>trace = [Request GET Scoreboard_me ''t'' None 0,
                             Request GET Daily_rewards_today_info ''t'' None 0,
                             Request POST Daily_rewards_claim ''t'' None 0,
                             Request GET (Missions CAMPAIGN_ID) ''t'' None 2000,
                             Request POST (Mission_activity (JNum 2)) ''t'' None 2000,
                             Request POST (Mission_reward (JNum 2)) ''t'' None 2000],
                 clock = 7000,
                 user_stats = (new_UserStats (JStr ''ann''))\<lparr>missions_completed := 1\<rparr>\<rparr>)"
  by (simp add: process_missions_def process_mission_def get_campaign_missions_def
      complete_mission_def claim_mission_reward_def add_missions_completed_def sleep_def
      run_defs busy_def scripted_def mission_half_def new_UserStats_def)


lemma busy_account:
  "process_account 0 busy ''t'' ''n'' 0 ''n'' 0 0 ''n'' start
     = Some (Inr (), \<lparr>trace = [Request GET Scoreboard_me ''t'' None 0,
                             Request GET Daily_rewards_today_info ''t'' None 0,
                             Request POST Daily_rewards_claim ''t'' None 0,
                             Request GET (Missions CAMPAIGN_ID) ''t'' None 2000,
                             Request POST (Mission_activity (JNum 2)) ''t'' None 2000,
                             Request POST (Mission_reward (JNum 2)) ''t'' None 2000],
                 clock = 17000,
                 user_stats = (new_UserStats (JStr ''ann''))\<lparr>missions_completed := 1\<rparr>\<rparr>)"
  by (simp add: process_account_def account_phases_def start_def busy_login busy_daily
      busy_missions bindE_def ret_def sleep_def is_yes_def summarize_upgrades_def)

text \<open>
  Claim C1, at an input where the code departs from it. \<open>rate_limited_api_call\<close> (lines
  36-40, five calls per ten seconds) is defined but no operation goes through it: each one
  calls \<open>session.get\<close> or \<open>session.post\<close> itself, and only the pacing sleeps space the
  calls. With a service that answers at once, one account with an unclaimed daily reward
  and one open mission dispatches six calls within the first two seconds: three at time
  0 and three at 2000 ms.
\<close>

theorem six_calls_in_two_seconds:
  "\<exists>w'. process_account 0 busy ''t'' ''n'' 0 ''n'' 0 0 ''n'' start = Some (Inr (), w')
        \<and> map sent_at (trace w') = [0, 0, 0, 2000, 2000, 2000]
        \<and> calls_within 0 10000 (trace w') = 6"
  unfolding busy_account by (simp add: calls_within_def)
section \<open>Auto-tap loop: the hard cap\<close>




section \<open>Auto-tap loop: consecutive failures\<close>



section \<open>Auto-tap loop: refill before tapping\<close>



section \<open>The counters of an account\<close>

lemma quiet_counters_le: "quiet counters_le E \<and> tap_blind counters_le"
  unfolding quiet_def keeps_def tap_blind_def
  by (auto simp: counters_le_def session_request_def Let_def set_initial_level_def
      set_final_level_def add_damage_upgrades_def add_limit_upgrades_def
      add_missions_completed_def add_taps_performed_def split: reply.splits)

lemma quiet_taps_le: "quiet taps_le E"
  unfolding quiet_def keeps_def
  by (auto simp: taps_le_def session_request_def Let_def set_initial_level_def
      set_final_level_def add_damage_upgrades_def add_limit_upgrades_def
      add_missions_completed_def split: reply.splits)

lemma quiet_taps_same: "quiet taps_same E"
  unfolding quiet_def keeps_def
  by (auto simp: taps_same_def session_request_def Let_def set_initial_level_def
      set_final_level_def add_damage_upgrades_def add_limit_upgrades_def
      add_missions_completed_def split: reply.splits)

lemma get_game_status_reply:
  assumes "get_game_status E token w = (Inr status, w')" and "status \<noteq> JNull"
  shows "\<exists>s. reply_of E (length (trace w)) = Response s (Some status)"
  using assms unfolding get_game_status_def
  by (auto simp: run_defs split: reply.splits option.splits sum.splits if_splits)

lemma perform_tapping_reply:
  assumes "perform_tapping E token n w = (Inr result, w')" and "result \<noteq> JNull"
  shows "\<exists>s. reply_of E (length (trace w)) = Response s (Some result)"
  using assms unfolding perform_tapping_def
  by (auto simp: run_defs split: reply.splits option.splits sum.splits if_splits)

lemma tap_step_taps:
  assumes "\<And>n. reported_clicks (reply_of E (length (trace w))) = Some n \<Longrightarrow> current_clicks \<le> n"
  shows "taps_le w (snd (tap_step E token v current_clicks w))"
proof -
  obtain result w3 where p: "perform_tapping E token 15 w = (Inr result, w3)"
    using returnsD [of "perform_tapping E token 15" w] perform_tapping_returns [of E token 15 w]
    by blast
  have w3: "user_stats w3 = user_stats w"
    using perform_tapping_world [of E token 15 w] p by (simp add: dispatched_def)
  show ?thesis
  proof (cases "truthy result")
    case False
    then show ?thesis
      using tap_step_failed [OF p False, of v current_clicks] w3
      by (simp add: taps_le_def jitter_sleep_def sleep_def)
  next
    case True
    then have "result \<noteq> JNull" by auto
    from perform_tapping_reply [OF p this] obtain s where
      r: "reply_of E (length (trace w)) = Response s (Some result)" by blast
    show ?thesis
    proof (cases "bindR (subscript result ''currentClickedCount'') py_num")
      case (Inl e)
      then show ?thesis
        using p True w3
        by (auto simp: tap_step_def bindE_def lift_def bindR_def taps_le_def
            split: sum.splits)
    next
      case (Inr n)
      then have "reported_clicks (reply_of E (length (trace w))) = Some n"
        by (simp add: reported_clicks_def r)
      from assms [OF this] have le: "current_clicks \<le> n" .
      from Inr obtain c where c: "subscript result ''currentClickedCount'' = Inr c"
        and n: "py_num c = Inr n"
        by (auto simp: bindR_def split: sum.splits)
      show ?thesis
        using tap_step_succeeded [OF p True c n, of v current_clicks] w3 le
        by (simp add: taps_le_def)
    qed
  qed
qed


lemma body_taps:
  assumes "counts_never_drop E"
  shows "taps_le w (snd (auto_play_body E token thr v0 w))"
proof -
  have trans: "\<And>a b c. taps_le a b \<Longrightarrow> taps_le b c \<Longrightarrow> taps_le a c"
    by (simp add: taps_le_def)
  have bcw: "taps_le w (snd (boost_check E token v0 w))"
    using keeps_boost_check [OF quiet_taps_le] unfolding keeps_def by blast
  show ?thesis
  proof (cases "boost_check E token v0 w")
    case (Pair r1 w1)
    with bcw have 1: "taps_le w w1" by simp
    show ?thesis
    proof (cases r1)
      case (Inl e)
      with Pair 1 show ?thesis by (simp add: auto_play_body_def bindE_def)
    next
      case (Inr v)
      with Pair have bc: "boost_check E token v0 w = (Inr v, w1)" by simp
      obtain status w2 where st: "get_game_status E token w1 = (Inr status, w2)"
        using returnsD [of "get_game_status E token" w1] get_game_status_returns [of E token w1]
        by blast
      have w2: "w2 = dispatched E POST Game_clicker_submit token
                       (Some (JObj [(''clickedCount'', JNum 0)])) w1"
        using get_game_status_world [of E token w1] st by simp
      then have 2: "taps_le w w2"
        using 1 by (simp add: taps_le_def dispatched_def)
      have len: "length (trace w2) = Suc (length (trace w1))"
        by (simp add: w2 dispatched_def)
      show ?thesis
      proof (cases "status = JNull")
        case True
        then show ?thesis
          using body_status_failed [OF bc, of w2 thr] st 2 by (simp add: taps_le_def)
      next
        case False
        from get_game_status_reply [OF st False] obtain s where
          r: "reply_of E (length (trace w1)) = Response s (Some status)" by blast
        have raised: "snd (auto_play_body E token thr v0 w) = w2"
          if "bindR (subscript status ''currentClickedCount'') py_num = Inl e
              \<or> bindR (subscript status ''totalClicksLimit'') py_num = Inl e" for e
          using that bc st False
          by (auto simp: auto_play_body_def bindE_def lift_def bindR_def split: sum.splits)
        show ?thesis
        proof (cases "bindR (subscript status ''currentClickedCount'') py_num")
          case (Inl e)
          then have "snd (auto_play_body E token thr v0 w) = w2"
            using raised [of e] by blast
          with 2 show ?thesis by simp
        next
          case cur: (Inr current_clicks)
          show ?thesis
          proof (cases "bindR (subscript status ''totalClicksLimit'') py_num")
            case (Inl e)
            then have "snd (auto_play_body E token thr v0 w) = w2"
              using raised [of e] by blast
            with 2 show ?thesis by simp
          next
            case lim: (Inr total_limit)
            from cur obtain c where c: "subscript status ''currentClickedCount'' = Inr c"
              "py_num c = Inr current_clicks"
              by (auto simp: bindR_def split: sum.splits)
            from lim obtain t where t: "subscript status ''totalClicksLimit'' = Inr t"
              "py_num t = Inr total_limit"
              by (auto simp: bindR_def split: sum.splits)
            note body = body_status_fetched [OF bc st c t, of thr]
            have refill: "taps_le w2 (snd (bindE (use_refill_boost E token) (\<lambda>refilled.
                if refilled then bindE (sleep 2000) (\<lambda>_. ret (Continue v))
                else ret (Return Stopped_SwitchAccount)) w2))"
            proof -
              have "keeps taps_le (bindE (use_refill_boost E token) (\<lambda>refilled.
                if refilled then bindE (sleep 2000) (\<lambda>_. ret (Continue v))
                else ret (Return Stopped_SwitchAccount)))"
                by (intro keeps_rules keeps_use_refill_boost; (rule quiet_taps_le | simp))
              then show ?thesis unfolding keeps_def by blast
            qed
            have freeze: "taps_le w2 (snd (bindE (freeze_game E token)
                (\<lambda>_. ret (Return Frozen)) w2))"
            proof -
              have "keeps taps_le (bindE (freeze_game E token) (\<lambda>_. ret (Return Frozen)))"
                by (intro keeps_rules keeps_freeze_game; (rule quiet_taps_le | simp))
              then show ?thesis unfolding keeps_def by blast
            qed
            have "reported_clicks (reply_of E (length (trace w1))) = Some current_clicks"
              by (simp add: reported_clicks_def r cur)
            then have "current_clicks \<le> n"
              if "reported_clicks (reply_of E (length (trace w2))) = Some n" for n
              using assms that unfolding counts_never_drop_def len by blast
            then have tap: "taps_le w2 (snd (tap_step E token v current_clicks w2))"
              by (rule tap_step_taps)
            have "taps_le w2 (snd (auto_play_body E token thr v0 w))"
              unfolding body using refill freeze tap by simp
            with 2 show ?thesis by (rule trans)
          qed
        qed
      qed
    qed
  qed
qed


lemma counts_never_drop_reports: "counts_never_drop (reports c t)"
  by (simp add: counts_never_drop_def reported_clicks_def reports_def scripted_def)

lemma counts_never_drop_tap_counted: "counts_never_drop tap_counted"
  unfolding counts_never_drop_def
proof (intro allI impI)
  fix k c n
  assume c: "reported_clicks (reply_of tap_counted k) = Some c"
    and n: "reported_clicks (reply_of tap_counted (Suc k)) = Some n"
  from n have "k = 0"
    by (cases k) (simp_all add: reported_clicks_def tap_counted_def scripted_def)
  with c n show "c \<le> n"
    by (simp add: reported_clicks_def tap_counted_def scripted_def game_status_def bindR_def)
qed

lemma switch_run:
  "auto_play_game 1 (reports 88 100) ''t'' (875 / 1000) start
     = Some (Inr Stopped_SwitchAccount,
             dispatched (reports 88 100) GET Boost_modification ''t'' None
               (dispatched (reports 88 100) POST Game_clicker_submit ''t''
                 (Some (JObj [(''clickedCount'', JNum 0)])) start))"
  by (simp add: auto_play_game_def auto_play_body_def boost_check_def use_refill_boost_def
      get_refill_boost_def get_boosts_def get_game_status_def run_defs reports_def scripted_def
      start_def game_status_def boost_check_interval_def dispatched_def)

text \<open>
  Claim C3 as it is written fails for \<open>taps_performed\<close>: the status reports 50 clicks,
  the reply to the tap reports 10, and the iteration adds \<open>10 - 50\<close> to the counter.
\<close>

theorem taps_performed_can_decrease:
  "taps_performed (user_stats start) = 0
   \<and> fst (auto_play_body drops ''t'' (875 / 1000) fresh_vars start)
       = Inr (Continue (fresh_vars\<lparr>tapping_count := - 40\<rparr>))
   \<and> taps_performed (user_stats (snd (auto_play_body drops ''t'' (875 / 1000) fresh_vars start)))
       = - 40"
  by (simp add: auto_play_body_def boost_check_def tap_step_def perform_tapping_def
      get_game_status_def run_defs drops_def scripted_def jitter_sleep_def sleep_def
      add_taps_performed_def max_consecutive_failures_def
      start_def game_status_def fresh_vars_def boost_check_interval_def new_UserStats_def)

text \<open>
  Claim C3, amended. Whatever the service replies, no operation on the statistics of an
  account (the mission runner, the purchases and their loops, all the phases before the
  auto-tap, an iteration of the auto-tap loop and the loop as a whole) leaves
  \<open>damage_upgrades\<close>, \<open>limit_upgrades\<close> or \<open>missions_completed\<close> below its previous
  value. \<open>taps_performed\<close> is changed by the auto-tap loop only, and it does not decrease
  there provided that no reply reports a lower click count than the reply just before it.
\<close>

theorem counters_never_decrease:
  "counters_le w (snd (process_missions E token campaign_id w))
   \<and> counters_le w (snd (upgrade_level E token w))
   \<and> counters_le w (snd (upgrade_tapping E token upgrade_id upgrade_type w))
   \<and> counters_le w (snd (level_upgrade_loop n E token w))
   \<and> counters_le w (snd (tapping_upgrade_loop n E token upgrade upgrade_type w))
   \<and> counters_le w (snd (account_phases E token a b c d e w))
   \<and> taps_same w (snd (account_phases E token a b c d e w))
   \<and> counters_le w (snd (auto_play_body E token refill_threshold v w))
   \<and> (\<forall>r w'. auto_play_game fuel E token refill_threshold w = Some (r, w') \<longrightarrow> counters_le w w')
   \<and> (counts_never_drop E \<longrightarrow>
        taps_le w (snd (auto_play_body E token refill_threshold v w))
        \<and> (\<forall>r w'. auto_play_game fuel E token refill_threshold w = Some (r, w') \<longrightarrow> taps_le w w'))"
proof -
  note q = conjunct1 [OF quiet_counters_le [of E]]
  note tb = conjunct2 [OF quiet_counters_le [of E]]
  have 1: "counters_le w (snd (process_missions E token campaign_id w))"
    using keeps_process_missions [OF q] unfolding keeps_def by blast
  have 2: "counters_le w (snd (upgrade_level E token w))"
    using keeps_upgrade_level [OF q] unfolding keeps_def by blast
  have 3: "counters_le w (snd (upgrade_tapping E token upgrade_id upgrade_type w))"
    using keeps_upgrade_tapping [OF q] unfolding keeps_def by blast
  have 4: "counters_le w (snd (level_upgrade_loop n E token w))"
    using keeps_level_upgrade_loop [OF q] unfolding keeps_def by blast
  have 5: "counters_le w (snd (tapping_upgrade_loop n E token upgrade upgrade_type w))"
    using keeps_tapping_upgrade_loop [OF q] unfolding keeps_def by blast
  have 6: "counters_le w (snd (account_phases E token a b c d e w))"
    using keeps_account_phases [OF q] unfolding keeps_def by blast
  have 7: "taps_same w (snd (account_phases E token a b c d e w))"
    using keeps_account_phases [OF quiet_taps_same] unfolding keeps_def by blast
  have 8: "counters_le w (snd (auto_play_body E token refill_threshold v w))"
    using keeps_auto_play_body [OF q tb] unfolding keeps_def by blast
  have 9: "\<forall>r w'. auto_play_game fuel E token refill_threshold w = Some (r, w') \<longrightarrow> counters_le w w'"
    unfolding auto_play_game_def
    using auto_play_loop_keeps [where R = counters_le, OF q keeps_auto_play_body [OF q tb]]
    by blast
  have 10: "taps_le w (snd (auto_play_body E token refill_threshold v w))"
    if "counts_never_drop E"
    using body_taps [OF that] .
  have 11: "\<forall>r w'. auto_play_game fuel E token refill_threshold w = Some (r, w') \<longrightarrow> taps_le w w'"
    if "counts_never_drop E"
  proof -
    have "keeps taps_le (auto_play_body E token refill_threshold v)" for v
      unfolding keeps_def using body_taps [OF that] by blast
    then show ?thesis
      unfolding auto_play_game_def
      using auto_play_loop_keeps [where R = taps_le, OF quiet_taps_le] by blast
  qed
  show ?thesis
    using 1 2 3 4 5 6 7 8 9 10 11 by blast
qed


theorem counters_never_decrease_witness:
  "counts_never_drop (reports 88 100)
   \<and> counts_never_drop tap_counted
   \<and> auto_play_game 1 (reports 88 100) ''t'' (875 / 1000) start
       = Some (Inr Stopped_SwitchAccount,
             dispatched (reports 88 100) GET Boost_modification ''t'' None
               (dispatched (reports 88 100) POST Game_clicker_submit ''t''
                 (Some (JObj [(''clickedCount'', JNum 0)])) start))
   \<and> counters_le start
        (dispatched (reports 88 100) GET Boost_modification ''t'' None
               (dispatched (reports 88 100) POST Game_clicker_submit ''t''
                 (Some (JObj [(''clickedCount'', JNum 0)])) start))
   \<and> taps_le start
        (dispatched (reports 88 100) GET Boost_modification ''t'' None
               (dispatched (reports 88 100) POST Game_clicker_submit ''t''
                 (Some (JObj [(''clickedCount'', JNum 0)])) start))
   \<and> taps_le start (snd (auto_play_body tap_counted ''t'' (875 / 1000) fresh_vars start))
   \<and> counters_le start (snd (account_phases tap_counted ''t'' ''y'' 2 ''y'' 1 1 start))"
proof -
  note a = counters_never_decrease [of start "reports 88 100" "''t''" CAMPAIGN_ID JNull
      "''Damage''" 0 JNull "''y''" 2 "''y''" 1 1 "875 / 1000" fresh_vars 1]
  note b = counters_never_decrease [of start tap_counted "''t''" CAMPAIGN_ID JNull
      "''Damage''" 0 JNull "''y''" 2 "''y''" 1 1 "875 / 1000" fresh_vars 1]
  show ?thesis
    using a b counts_never_drop_reports [of 88 100] counts_never_drop_tap_counted switch_run
    by blast
qed
section \<open>The batch: one login per line\<close>








section \<open>Mission runner: one mission\<close>






section \<open>Upgrade runner\<close>

text \<open>
  Claim C7, at an input where the code departs from it. The first purchase of the damage
  upgrade is answered with status 201 and a body without \<open>level\<close>: \<open>upgrade_tapping\<close> has
  already added 1 to \<open>damage_upgrades\<close> when \<open>result['level']\<close> raises, so it returns
  \<open>False\<close>, the loop of three requested upgrades stops after this one attempt, and one
  success stays recorded although the first attempt is the failed one. \<open>upgrade_level\<close>,
  on the same reply, fails without recording anything.
\<close>

theorem damage_upgrade_counted_on_failed_attempt:
  "fst (upgrade_tapping created_without_level ''t'' (JNum 7) ''Damage'' start) = Inr (False, JNull)
   \<and> damage_upgrades (user_stats start) = 0
   \<and> damage_upgrades (user_stats (snd (tapping_upgrade_loop 3 created_without_level ''t''
         damage_card ''Damage'' start))) = 1
   \<and> length (trace (snd (tapping_upgrade_loop 3 created_without_level ''t''
         damage_card ''Damage'' start))) = 1
   \<and> upgrade_level created_without_level ''t'' start
       = (Inr (False, JNull), dispatched created_without_level POST Boost_level_purchase ''t'' None start)"
  by (simp add: eval_nat_numeral upgrade_tapping_def upgrade_level_def run_defs
      created_without_level_def damage_card_def scripted_def start_def new_UserStats_def
      add_damage_upgrades_def dispatched_def)
section \<open>Failures of remote calls\<close>





section \<open>Status fetch and tap submission\<close>

text \<open>
  Claim C10. For every environment and token, fetching the game status is submitting a
  tap of zero clicks: \<open>get_game_status\<close> dispatches the same POST to the submit endpoint,
  with \<open>clickedCount = 0\<close>, that \<open>perform_tapping\<close> dispatches with its click count, and
  returns the same value in the same state (the two differ in their log lines only).
\<close>

theorem get_game_status_is_zero_tap:
  "get_game_status E token = perform_tapping E token 0"
proof
  fix w
  show "get_game_status E token w = perform_tapping E token 0 w"
  proof (cases "reply_of E (length (trace w))")
    case Transport_error
    then show ?thesis
      by (simp add: get_game_status_def perform_tapping_def try_except_def bindE_def
          session_request_def Let_def ret_def)
  next
    case (Response s b)
    show ?thesis
    proof (cases b)
      case None
      with Response show ?thesis
        by (simp add: get_game_status_def perform_tapping_def try_except_def bindE_def
            session_request_def Let_def ret_def lift_def raise_for_status_def response_json_def)
    next
      case (Some j)
      with Response show ?thesis
        by (cases j) (simp_all add: get_game_status_def perform_tapping_def try_except_def
            bindE_def session_request_def Let_def ret_def lift_def raise_for_status_def
            response_json_def)
    qed
  qed
qed

end
